theory Spec2Isabelle
  imports Main
begin

section \<open>Element trees\<close>

text \<open>
  The three components of \<^verbatim>\<open>app/providers\<close> build React element trees. An element is
  modelled as a tree: \<open>Slot\<close> is an opaque node handed in from outside (the components
  never inspect their \<^verbatim>\<open>children\<close>), \<open>Fragment\<close> is \<^verbatim>\<open><>...</>\<close>, \<open>Div\<close> is
  \<^verbatim>\<open><div>\<close>, \<open>Provider\<close> is the \<^verbatim>\<open>react-redux\<close> provider with its \<^verbatim>\<open>store\<close> prop
  (a reference to a store object) and its single child, \<open>Toaster\<close> is the toast host of
  \<^verbatim>\<open>react-hot-toast\<close> with its props. The last three constructors are the elements
  that JSX creates for the components of this repository, before they are rendered.
\<close>

record toast_style =
  background :: string
  color :: string
  border :: string
  padding :: string

record toast_options =
  duration :: int
  style :: toast_style

record toaster_props =
  position :: string
  toastOptions :: toast_options

datatype ('c, 'r) element =
    Slot 'c
  | Fragment "('c, 'r) element list"
  | Div "('c, 'r) element list"
  | Provider 'r "('c, 'r) element"
  | Toaster toaster_props
  | MainProviderE "('c, 'r) element"
  | ReduxProviderE "('c, 'r) element"
  | ToastProviderE

section \<open>The components\<close>

text \<open>
  \<^verbatim>\<open>ToastProvider\<close> takes no props, calls no hook and reads nothing: it is a constant.
\<close>

definition ToastProvider :: "('c, 'r) element" where
  "ToastProvider =
     Div [Toaster \<lparr>position = ''top-center'',
                   toastOptions = \<lparr>duration = 4000,
                                   style = \<lparr>background = ''#fff'',
                                            color = ''#333'',
                                            border = ''1px solid #319691'',
                                            padding = ''12px 16px''\<rparr>\<rparr>\<rparr>]"

text \<open>
  \<^verbatim>\<open>ReduxProvider\<close> calls the store factory in its body, on every call. The factory is
  imported from \<^verbatim>\<open>@/shared/config/store/store\<close>, which is not among the sources, so it
  is a parameter here: a function on the world of store objects \<open>'w\<close> that returns a
  store reference and the new world, or throws (\<open>Inl\<close>). The call is the only expression
  of the three components that can complete abruptly; there is no \<^verbatim>\<open>try\<close>, so an
  exception of the factory leaves the component.
\<close>

definition ReduxProvider ::
  "('w \<Rightarrow> 'x + 'r \<times> 'w) \<Rightarrow> ('c, 'r) element \<Rightarrow> 'w \<Rightarrow> 'x + ('c, 'r) element \<times> 'w" where
  "ReduxProvider factory children w =
     (case factory w of
        Inl x \<Rightarrow> Inl x
      | Inr (store, w') \<Rightarrow> Inr (Provider store children, w'))"

definition MainProvider :: "('c, 'r) element \<Rightarrow> ('c, 'r) element" where
  "MainProvider children = Fragment [ReduxProviderE children, ToastProviderE]"

text \<open>
  Modelled from the spec: the store factory \<^verbatim>\<open>makeStore\<close> is not among the sources. The
  spec describes it as an external collaborator producing a store instance, a new state
  container at each construction. The world is the list of the states of the stores
  constructed so far, a store reference is an index into it, and the state a new store
  starts with, which the spec does not give, is the parameter \<open>init\<close>.
\<close>

definition makeStore :: "'s \<Rightarrow> 's list \<Rightarrow> 'x + nat \<times> 's list" where
  "makeStore init w = Inr (length w, w @ [init])"

section \<open>Rendering\<close>

text \<open>
  React renders an element tree top down and left to right: a component element is
  replaced by what the component function returns, which is rendered in turn. \<open>weight\<close>
  is the measure under which this terminates.
\<close>

fun weight :: "('c, 'r) element \<Rightarrow> nat" where
  "weight (Slot c) = 1"
| "weight (Fragment es) = 1 + sum_list (map weight es)"
| "weight (Div es) = 1 + sum_list (map weight es)"
| "weight (Provider s e) = 1 + weight e"
| "weight (Toaster p) = 1"
| "weight (MainProviderE e) = 8 + weight e"
| "weight (ReduxProviderE e) = 2 + weight e"
| "weight ToastProviderE = 3"

function render ::
    "('w \<Rightarrow> 'x + 'r \<times> 'w) \<Rightarrow> ('c, 'r) element \<Rightarrow> 'w \<Rightarrow> 'x + ('c, 'r) element \<times> 'w"
  and render_list ::
    "('w \<Rightarrow> 'x + 'r \<times> 'w) \<Rightarrow> ('c, 'r) element list \<Rightarrow> 'w \<Rightarrow> 'x + ('c, 'r) element list \<times> 'w"
  where
  "render factory (Slot c) w = Inr (Slot c, w)"
| "render factory (Fragment es) w =
     (case render_list factory es w of
        Inl x \<Rightarrow> Inl x
      | Inr (es', w') \<Rightarrow> Inr (Fragment es', w'))"
| "render factory (Div es) w =
     (case render_list factory es w of
        Inl x \<Rightarrow> Inl x
      | Inr (es', w') \<Rightarrow> Inr (Div es', w'))"
| "render factory (Provider s e) w =
     (case render factory e w of
        Inl x \<Rightarrow> Inl x
      | Inr (e', w') \<Rightarrow> Inr (Provider s e', w'))"
| "render factory (Toaster p) w = Inr (Toaster p, w)"
| "render factory (MainProviderE e) w = render factory (MainProvider e) w"
| "render factory (ReduxProviderE e) w =
     (case ReduxProvider factory e w of
        Inl x \<Rightarrow> Inl x
      | Inr (r, w') \<Rightarrow> render factory r w')"
| "render factory ToastProviderE w = render factory ToastProvider w"
| "render_list factory [] w = Inr ([], w)"
| "render_list factory (e # es) w =
     (case render factory e w of
        Inl x \<Rightarrow> Inl x
      | Inr (e', w') \<Rightarrow>
          (case render_list factory es w' of
             Inl x \<Rightarrow> Inl x
           | Inr (es', w'') \<Rightarrow> Inr (e' # es', w'')))"
  by pat_completeness auto

termination
proof (relation "measure (\<lambda>a. case a of
          Inl (f, e, w) \<Rightarrow> 2 * weight e
        | Inr (f, es, w) \<Rightarrow> 2 * sum_list (map weight es) + 1)", goal_cases)
  case 1
  show ?case by simp
next
  case (2 factory es w)
  show ?case by simp
next
  case (3 factory es w)
  show ?case by simp
next
  case (4 factory s e w)
  show ?case by simp
next
  case (5 factory e w)
  show ?case by (simp add: MainProvider_def)
next
  case (6 factory e w x2 r w')
  then have "weight r = 1 + weight e"
    by (auto simp: ReduxProvider_def split: sum.splits prod.splits)
  with 6 show ?case by auto
next
  case (7 factory w)
  show ?case by (simp add: ToastProvider_def)
next
  case (8 factory e es w)
  show ?case by simp
next
  case (9 factory e es w x2 e' w')
  have "0 < weight e" by (cases e) simp_all
  then show ?case by simp
qed

section \<open>Observations on element trees\<close>

text \<open>The opaque nodes of a tree, in document order.\<close>

fun slots :: "('c, 'r) element \<Rightarrow> 'c list" where
  "slots (Slot c) = [c]"
| "slots (Fragment es) = concat (map slots es)"
| "slots (Div es) = concat (map slots es)"
| "slots (Provider s e) = slots e"
| "slots (Toaster p) = []"
| "slots (MainProviderE e) = slots e"
| "slots (ReduxProviderE e) = slots e"
| "slots ToastProviderE = []"

text \<open>
  Each opaque node with the stores of the providers around it, the outermost first.
\<close>

fun enclosing :: "('c, 'r) element \<Rightarrow> ('c \<times> 'r list) list" where
  "enclosing (Slot c) = [(c, [])]"
| "enclosing (Fragment es) = concat (map enclosing es)"
| "enclosing (Div es) = concat (map enclosing es)"
| "enclosing (Provider s e) = map (\<lambda>(x, ps). (x, s # ps)) (enclosing e)"
| "enclosing (Toaster p) = []"
| "enclosing (MainProviderE e) = enclosing e"
| "enclosing (ReduxProviderE e) = enclosing e"
| "enclosing ToastProviderE = []"

text \<open>The props of the toast hosts of a tree, in document order.\<close>

fun toaster_hosts :: "('c, 'r) element \<Rightarrow> toaster_props list" where
  "toaster_hosts (Slot c) = []"
| "toaster_hosts (Fragment es) = concat (map toaster_hosts es)"
| "toaster_hosts (Div es) = concat (map toaster_hosts es)"
| "toaster_hosts (Provider s e) = toaster_hosts e"
| "toaster_hosts (Toaster p) = [p]"
| "toaster_hosts (MainProviderE e) = toaster_hosts e"
| "toaster_hosts (ReduxProviderE e) = toaster_hosts e"
| "toaster_hosts ToastProviderE = []"

text \<open>The \<^verbatim>\<open>store\<close> props of the providers of a tree, in document order.\<close>

fun provided_stores :: "('c, 'r) element \<Rightarrow> 'r list" where
  "provided_stores (Slot c) = []"
| "provided_stores (Fragment es) = concat (map provided_stores es)"
| "provided_stores (Div es) = concat (map provided_stores es)"
| "provided_stores (Provider s e) = s # provided_stores e"
| "provided_stores (Toaster p) = []"
| "provided_stores (MainProviderE e) = provided_stores e"
| "provided_stores (ReduxProviderE e) = provided_stores e"
| "provided_stores ToastProviderE = []"

text \<open>The children of an element, in sibling order.\<close>

fun children_of :: "('c, 'r) element \<Rightarrow> ('c, 'r) element list" where
  "children_of (Slot c) = []"
| "children_of (Fragment es) = es"
| "children_of (Div es) = es"
| "children_of (Provider s e) = [e]"
| "children_of (Toaster p) = []"
| "children_of (MainProviderE e) = [e]"
| "children_of (ReduxProviderE e) = [e]"
| "children_of ToastProviderE = []"

text \<open>
  A re-render calls the component functions again, in the world the renders before it
  have left: \<open>rerender factory e n\<close> renders the same element \<open>n\<close> times in a row and
  returns the \<open>n\<close> outputs.
\<close>

fun rerender ::
  "('w \<Rightarrow> 'x + 'r \<times> 'w) \<Rightarrow> ('c, 'r) element \<Rightarrow> nat \<Rightarrow> 'w \<Rightarrow> 'x + ('c, 'r) element list \<times> 'w" where
  "rerender factory e 0 w = Inr ([], w)"
| "rerender factory e (Suc n) w =
     (case render factory e w of
        Inl x \<Rightarrow> Inl x
      | Inr (e', w') \<Rightarrow>
          (case rerender factory e n w' of
             Inl x \<Rightarrow> Inl x
           | Inr (es', w'') \<Rightarrow> Inr (e' # es', w'')))"

section \<open>Rendering the components\<close>

lemma render_ToastProviderE: "render factory ToastProviderE w = Inr (ToastProvider, w)"
  by (simp add: ToastProvider_def)

lemma render_ReduxProviderE:
  "render factory (ReduxProviderE c) w =
     (case factory w of
        Inl x \<Rightarrow> Inl x
      | Inr (s, w1) \<Rightarrow>
          (case render factory c w1 of
             Inl x \<Rightarrow> Inl x
           | Inr (c', w2) \<Rightarrow> Inr (Provider s c', w2)))"
  by (simp add: ReduxProvider_def split: sum.splits prod.splits)

lemma render_MainProviderE:
  "render factory (MainProviderE c) w =
     (case factory w of
        Inl x \<Rightarrow> Inl x
      | Inr (s, w1) \<Rightarrow>
          (case render factory c w1 of
             Inl x \<Rightarrow> Inl x
           | Inr (c', w2) \<Rightarrow> Inr (Fragment [Provider s c', ToastProvider], w2)))"
proof (cases "factory w")
  case (Inl x)
  then show ?thesis
    by (simp add: MainProvider_def ReduxProvider_def)
next
  case (Inr p)
  obtain s w1 where p: "p = (s, w1)" by (cases p)
  show ?thesis
  proof (cases "render factory c w1")
    case (Inl x)
    with Inr p show ?thesis
      by (simp add: MainProvider_def ReduxProvider_def)
  next
    case (Inr q)
    obtain c' w2 where q: "q = (c', w2)" by (cases q)
    from \<open>factory w = Inr p\<close> p Inr q show ?thesis
      by (simp add: MainProvider_def ReduxProvider_def ToastProvider_def)
  qed
qed


lemma render_slots:
  "render factory (e :: ('c, 'r) element) w = Inr (e', w') \<Longrightarrow> slots e' = slots e"
  "render_list factory (es :: ('c, 'r) element list) w = Inr (es', w') \<Longrightarrow> concat (map slots es') = concat (map slots es)"
proof (induction factory e w and factory es w arbitrary: e' w' and es' w' rule: render_render_list.induct)
  case (6 factory e w)
  then show ?case by (simp add: MainProvider_def)
next
  case (7 factory e w)
  then show ?case
    by (auto simp: ReduxProvider_def split: sum.splits prod.splits)
next
  case (8 factory w)
  then show ?case by (auto simp: ToastProvider_def)
qed (auto split: sum.splits prod.splits)

text \<open>
  In the lemmas on the stores, \<open>alloc w\<close> is the set of the stores that exist in the world
  \<open>w\<close>, and the factory is one that constructs: the store it returns did not exist before
  the call and is the one store that exists more after it.
\<close>

lemma render_alloc_mono:
  "render factory (e :: ('c, 'r) element) w = Inr (e', w') \<Longrightarrow>
   \<forall>v s v'. factory v = Inr (s, v') \<longrightarrow> s \<notin> alloc v \<and> alloc v' = insert s (alloc v) \<Longrightarrow>
   alloc w \<subseteq> alloc w'"
  "render_list factory (es :: ('c, 'r) element list) w = Inr (es', w') \<Longrightarrow>
   \<forall>v s v'. factory v = Inr (s, v') \<longrightarrow> s \<notin> alloc v \<and> alloc v' = insert s (alloc v) \<Longrightarrow>
   alloc w \<subseteq> alloc w'"
proof (induction factory e w and factory es w arbitrary: e' w' and es' w'
       rule: render_render_list.induct)
  case (6 factory e w)
  then show ?case by (simp add: MainProvider_def)
next
  case (7 factory e w)
  from "7.prems"(1) obtain s w1 where
    f: "factory w = Inr (s, w1)" and r: "render factory (Provider s e) w1 = Inr (e', w')"
    by (auto simp: ReduxProvider_def split: sum.splits prod.splits)
  from f have p: "ReduxProvider factory e w = Inr (Provider s e, w1)"
    by (simp add: ReduxProvider_def)
  from "7.IH" [OF p refl r "7.prems"(2)] have "alloc w1 \<subseteq> alloc w'" .
  moreover from "7.prems"(2) f have "alloc w \<subseteq> alloc w1" by auto
  ultimately show ?case by blast
next
  case (8 factory w)
  then show ?case by (auto simp: ToastProvider_def)
next
  case (10 factory e es w)
  from "10.prems"(1) obtain e1 w1 es1 where
    r: "render factory e w = Inr (e1, w1)" and rs: "render_list factory es w1 = Inr (es1, w')"
    by (auto split: sum.splits prod.splits)
  from "10.IH"(1) [OF r "10.prems"(2)] have "alloc w \<subseteq> alloc w1" .
  moreover from "10.IH"(2) [OF r refl rs "10.prems"(2)] have "alloc w1 \<subseteq> alloc w'" .
  ultimately show ?case by blast
qed (auto split: sum.splits prod.splits)

lemma render_ReduxProviderE_fresh:
  assumes "render factory (ReduxProviderE c) w = Inr (e', w')"
      and "\<forall>v s v'. factory v = Inr (s, v') \<longrightarrow> s \<notin> alloc v \<and> alloc v' = insert s (alloc v)"
  shows "\<exists>s c'. e' = Provider s c' \<and> s \<notin> alloc w \<and> s \<in> alloc w'"
proof -
  from assms(1) obtain s w1 c' where
    f: "factory w = Inr (s, w1)" and r: "render factory c w1 = Inr (c', w')"
    and e': "e' = Provider s c'"
    by (auto simp: render_ReduxProviderE simp del: render.simps(7) split: sum.splits prod.splits)
  from assms(2) f have "s \<notin> alloc w" "s \<in> alloc w1" by auto
  moreover from render_alloc_mono(1) [OF r assms(2)] have "alloc w1 \<subseteq> alloc w'" .
  ultimately show ?thesis using e' by blast
qed

lemma rerender_alloc_mono:
  assumes "rerender factory e n w = Inr (outs, w')"
      and "\<forall>v s v'. factory v = Inr (s, v') \<longrightarrow> s \<notin> alloc v \<and> alloc v' = insert s (alloc v)"
  shows "alloc w \<subseteq> alloc w'"
  using assms(1)
proof (induction n arbitrary: w outs)
  case 0
  then show ?case by simp
next
  case (Suc n)
  from Suc.prems obtain e1 w1 es where
    r1: "render factory e w = Inr (e1, w1)" and
    rs: "rerender factory e n w1 = Inr (es, w')"
    by (auto split: sum.splits prod.splits)
  from render_alloc_mono(1) [OF r1 assms(2)] Suc.IH [OF rs] show ?case by blast
qed

lemma rerender_ReduxProviderE_nth:
  assumes "rerender factory (ReduxProviderE c) n w = Inr (outs, w')"
      and "\<forall>v s v'. factory v = Inr (s, v') \<longrightarrow> s \<notin> alloc v \<and> alloc v' = insert s (alloc v)"
      and "k < n"
  shows "\<exists>s c'. outs ! k = Provider s c' \<and> s \<notin> alloc w \<and> s \<in> alloc w'"
  using assms(1,3)
proof (induction n arbitrary: w outs k)
  case 0
  then show ?case by simp
next
  case (Suc n)
  from Suc.prems(1) obtain e1 w1 es where
    r1: "render factory (ReduxProviderE c) w = Inr (e1, w1)" and
    rs: "rerender factory (ReduxProviderE c) n w1 = Inr (es, w')" and
    outs: "outs = e1 # es"
    by (auto simp del: render.simps split: sum.splits prod.splits)
  from render_ReduxProviderE_fresh [OF r1 assms(2)] obtain s1 c1 where
    e1: "e1 = Provider s1 c1" and s1: "s1 \<notin> alloc w" "s1 \<in> alloc w1" by blast
  have m1: "alloc w \<subseteq> alloc w1"
    using r1 assms(2) by (rule render_alloc_mono(1))
  have m2: "alloc w1 \<subseteq> alloc w'"
    using rs assms(2) by (rule rerender_alloc_mono)
  show ?case
  proof (cases k)
    case 0
    with outs e1 s1 m2 show ?thesis by auto
  next
    case (Suc k')
    with Suc.prems(2) have "k' < n" by simp
    from Suc.IH [OF rs this] obtain s c' where
      "es ! k' = Provider s c'" "s \<notin> alloc w1" "s \<in> alloc w'" by blast
    with Suc outs m1 show ?thesis by auto
  qed
qed

lemma rerender_ReduxProviderE_distinct:
  assumes "rerender factory (ReduxProviderE c) n w = Inr (outs, w')"
      and "\<forall>v s v'. factory v = Inr (s, v') \<longrightarrow> s \<notin> alloc v \<and> alloc v' = insert s (alloc v)"
      and "i < j" and "j < n"
  shows "\<exists>si sj ci cj. outs ! i = Provider si ci \<and> outs ! j = Provider sj cj \<and> si \<noteq> sj"
  using assms(1,3,4)
proof (induction n arbitrary: w outs i j)
  case 0
  then show ?case by simp
next
  case (Suc n)
  from Suc.prems(1) obtain e1 w1 es where
    r1: "render factory (ReduxProviderE c) w = Inr (e1, w1)" and
    rs: "rerender factory (ReduxProviderE c) n w1 = Inr (es, w')" and
    outs: "outs = e1 # es"
    by (auto simp del: render.simps split: sum.splits prod.splits)
  from render_ReduxProviderE_fresh [OF r1 assms(2)] obtain s1 c1 where
    e1: "e1 = Provider s1 c1" and s1: "s1 \<in> alloc w1" by blast
  from Suc.prems(2) obtain j' where j: "j = Suc j'" by (cases j) auto
  with Suc.prems(3) have j': "j' < n" by simp
  show ?case
  proof (cases i)
    case 0
    from rerender_ReduxProviderE_nth [OF rs assms(2) j'] obtain s c' where
      "es ! j' = Provider s c'" "s \<notin> alloc w1" by blast
    with 0 j outs e1 s1 show ?thesis by auto
  next
    case (Suc i')
    with Suc.prems(2) j have "i' < j'" by simp
    from Suc.IH [OF rs this j'] Suc j outs show ?thesis by simp
  qed
qed

section \<open>The claims\<close>

text \<open>
  C1. The spec asks that, over repeated re-renders of the provider composition with the same
  child subtree, the store provided to the subtree stays the identical object, constructed
  once. The code calls the factory in the body of \<^verbatim>\<open>ReduxProvider\<close>: rendering
  the composition twice in a row from the empty world, with an opaque child, provides store
  \<open>0\<close> to the first output and store \<open>1\<close> to the second, and leaves two stores in the world.
\<close>

theorem store_identity_changes_on_rerender:
  "rerender (makeStore (0 :: int)) (MainProviderE (Slot ''app'')) 2 [] =
     (Inr ([Fragment [Provider 0 (Slot ''app''), ToastProvider],
            Fragment [Provider 1 (Slot ''app''), ToastProvider]], [0, 0]) :: unit + _)"
  by (simp add: numeral_2_eq_2 render_MainProviderE makeStore_def del: render.simps(6))

text \<open>
  C2. Every render of \<^verbatim>\<open>ReduxProvider\<close> calls the store factory and passes the store it
  has just constructed to the provider: with a factory that constructs, when the component
  is rendered \<open>n\<close> times in a row, each output is a provider, the stores of any two of the
  outputs differ, and each of them is a store that did not exist in the initial world and
  exists in the final one.
\<close>

theorem ReduxProvider_fresh_store_every_render:
  assumes "\<forall>v s v'. factory v = Inr (s, v') \<longrightarrow> s \<notin> alloc v \<and> alloc v' = insert s (alloc v)"
      and "rerender factory (ReduxProviderE c) n w = Inr (outs, w')"
      and "i < j" and "j < n"
  shows "\<exists>si sj ci cj. outs ! i = Provider si ci \<and> outs ! j = Provider sj cj
           \<and> si \<noteq> sj
           \<and> si \<notin> alloc w \<and> si \<in> alloc w'
           \<and> sj \<notin> alloc w \<and> sj \<in> alloc w'"
proof -
  from assms(3,4) have i: "i < n" by simp
  from rerender_ReduxProviderE_distinct [OF assms(2,1,3,4)] obtain si sj ci cj where
    o: "outs ! i = Provider si ci" "outs ! j = Provider sj cj" and ne: "si \<noteq> sj" by blast
  from rerender_ReduxProviderE_nth [OF assms(2,1) i] o(1)
  have bi: "si \<notin> alloc w \<and> si \<in> alloc w'" by auto
  from rerender_ReduxProviderE_nth [OF assms(2,1,4)] o(2)
  have bj: "sj \<notin> alloc w \<and> sj \<in> alloc w'" by auto
  from o ne bi bj show ?thesis by auto
qed

theorem ReduxProvider_fresh_store_every_render_witness:
  "(\<forall>v. makeStore (0 :: int) v = (Inr (length v, v @ [0]) :: unit + _))
   \<and> rerender (makeStore (0 :: int)) (ReduxProviderE (Slot ''app'')) 2 [] =
     (Inr ([Provider 0 (Slot ''app''), Provider 1 (Slot ''app'')], [0, 0]) :: unit + _)
   \<and> (0 :: nat) < 1 \<and> (1 :: nat) < 2
   \<and> (\<exists>si sj ci cj.
         [Provider 0 (Slot ''app''), Provider 1 (Slot ''app'')] ! 0 = Provider si (ci :: (string, nat) element)
       \<and> [Provider 0 (Slot ''app''), Provider 1 (Slot ''app'')] ! 1 = Provider sj (cj :: (string, nat) element)
       \<and> si \<noteq> sj
       \<and> si \<notin> {..<length ([] :: int list)} \<and> si \<in> {..<length [0 :: int, 0]}
       \<and> sj \<notin> {..<length ([] :: int list)} \<and> sj \<in> {..<length [0 :: int, 0]})"
proof -
  have h0: "\<forall>v s v'. makeStore (0 :: int) v = (Inr (s, v') :: unit + _)
        \<longrightarrow> s \<notin> {..<length v} \<and> {..<length v'} = insert s {..<length v}"
    by (auto simp: makeStore_def)
  have h1: "rerender (makeStore (0 :: int)) (ReduxProviderE (Slot ''app'')) 2 [] =
     (Inr ([Provider 0 (Slot ''app''), Provider 1 (Slot ''app'')], [0, 0]) :: unit + _)"
    by (simp add: numeral_2_eq_2 ReduxProvider_def makeStore_def)
  have h2: "(0 :: nat) < 1" by simp
  have h3: "(1 :: nat) < 2" by simp
  have h4: "\<forall>v. makeStore (0 :: int) v = (Inr (length v, v @ [0]) :: unit + _)"
    by (simp add: makeStore_def)
  from ReduxProvider_fresh_store_every_render
         [of "makeStore (0 :: int)" "\<lambda>v. {..<length v}", OF h0 h1 h2 h3] h1 h2 h3 h4
  show ?thesis by blast
qed

text \<open>
  C3. For every child subtree, \<^verbatim>\<open>MainProvider\<close> returns a fragment of two siblings, the
  \<^verbatim>\<open>ReduxProvider\<close> element around the child and the \<^verbatim>\<open>ToastProvider\<close> element; rendered,
  the fragment holds the provider around the rendered child and, beside it, the notification
  surface, which holds no part of the child.
\<close>

theorem MainProvider_wraps_child_toast_sibling:
  assumes "factory w = Inr (s, w1)" and "render factory c w1 = Inr (c', w2)"
  shows "MainProvider c = Fragment [ReduxProviderE c, ToastProviderE]
         \<and> render factory (MainProviderE c) w
             = Inr (Fragment [Provider s c', ToastProvider], w2)
         \<and> slots (ToastProvider :: ('c, 'r) element) = ([] :: 'c list)"
  using assms
  by (simp add: render_MainProviderE MainProvider_def ToastProvider_def del: render.simps(6))

theorem MainProvider_wraps_child_toast_sibling_witness:
  "makeStore (0 :: int) [] = (Inr (0, [0]) :: unit + _)
   \<and> render (makeStore (0 :: int)) (Slot ''app'') [0] = (Inr (Slot ''app'', [0]) :: unit + _)
   \<and> MainProvider (Slot ''app'' :: (string, nat) element)
       = Fragment [ReduxProviderE (Slot ''app''), ToastProviderE]
   \<and> render (makeStore (0 :: int)) (MainProviderE (Slot ''app'')) [] =
       (Inr (Fragment [Provider 0 (Slot ''app''), ToastProvider], [0]) :: unit + _)
   \<and> slots (ToastProvider :: (string, nat) element) = []"
proof -
  have h1: "makeStore (0 :: int) [] = (Inr (0, [0]) :: unit + _)"
    by (simp add: makeStore_def)
  have h2: "render (makeStore (0 :: int)) (Slot ''app'') [0] = (Inr (Slot ''app'', [0]) :: unit + _)"
    by simp
  from MainProvider_wraps_child_toast_sibling [OF h1 h2] h1 h2 show ?thesis
    by blast
qed

text \<open>
  C4. For every child subtree, the rendered output of \<^verbatim>\<open>MainProvider\<close> holds the rendered
  child inside exactly one provider of the composition: every opaque node of the child has
  the providers it has inside the child and, around them, the one store \<open>s\<close> of the factory,
  and the output holds one provider more than the rendered child does.
\<close>

theorem child_inside_exactly_one_provider:
  assumes "render factory (MainProviderE c) w = Inr (out, w')"
  shows "\<exists>s w1 c'. factory w = Inr (s, w1) \<and> render factory c w1 = Inr (c', w')
           \<and> enclosing out = map (\<lambda>(x, ps). (x, s # ps)) (enclosing c')
           \<and> provided_stores out = s # provided_stores c'"
  using assms
  by (auto simp: render_MainProviderE ToastProvider_def simp del: render.simps(6)
           split: sum.splits prod.splits)

theorem child_inside_exactly_one_provider_witness:
  "render (makeStore (0 :: int)) (MainProviderE (Slot ''app'')) [] =
       (Inr (Fragment [Provider 0 (Slot ''app''), ToastProvider], [0]) :: unit + _)
   \<and> enclosing (Fragment [Provider (0 :: nat) (Slot ''app''), ToastProvider]) = [(''app'', [0])]
   \<and> provided_stores (Fragment [Provider (0 :: nat) (Slot ''app''), ToastProvider]) = [0]"
proof -
  have h: "render (makeStore (0 :: int)) (MainProviderE (Slot ''app'')) [] =
       (Inr (Fragment [Provider 0 (Slot ''app''), ToastProvider], [0]) :: unit + _)"
    by (simp add: render_MainProviderE makeStore_def del: render.simps(6))
  from child_inside_exactly_one_provider [OF h] h show ?thesis
    by (auto simp: makeStore_def)
qed

text \<open>
  C5. The notification surface renders, in every world, one toast host, whose position is
  \<^verbatim>\<open>top-center\<close>, whose duration is 4000, and whose style is background \<^verbatim>\<open>#fff\<close>, text color
  \<^verbatim>\<open>#333\<close>, border \<^verbatim>\<open>1px solid #319691\<close> and padding \<^verbatim>\<open>12px 16px\<close>.
\<close>

theorem ToastProvider_configuration:
  "\<exists>p. render factory ToastProviderE w = Inr (Div [Toaster p], w)
       \<and> toaster_hosts (ToastProvider :: ('c, 'r) element) = [p]
       \<and> position p = ''top-center''
       \<and> duration (toastOptions p) = 4000
       \<and> background (style (toastOptions p)) = ''#fff''
       \<and> color (style (toastOptions p)) = ''#333''
       \<and> border (style (toastOptions p)) = ''1px solid #319691''
       \<and> padding (style (toastOptions p)) = ''12px 16px''"
  by (simp add: ToastProvider_def)

text \<open>
  C6. \<^verbatim>\<open>ReduxProvider\<close> does nothing to the store beyond constructing it: the world it
  leaves is the world the factory has returned, and the store it provides is the store the
  factory has returned, so the store holds the state the factory gave it.
\<close>

theorem ReduxProvider_no_hydration:
  assumes "ReduxProvider factory c w = Inr (e, w')"
  shows "\<exists>s. factory w = Inr (s, w') \<and> e = Provider s c"
  using assms by (auto simp: ReduxProvider_def split: sum.splits prod.splits)

theorem ReduxProvider_no_hydration_witness:
  "ReduxProvider (makeStore (7 :: int)) (Slot ''app'') [] = (Inr (Provider 0 (Slot ''app''), [7]) :: unit + _)
   \<and> (\<exists>s. makeStore (7 :: int) [] = (Inr (s, [7]) :: unit + _)
          \<and> Provider 0 (Slot ''app'') = Provider s (Slot ''app''))"
proof -
  have h: "ReduxProvider (makeStore (7 :: int)) (Slot ''app'') [] =
             (Inr (Provider 0 (Slot ''app''), [7]) :: unit + _)"
    by (simp add: ReduxProvider_def makeStore_def)
  from ReduxProvider_no_hydration [OF h] h show ?thesis by simp
qed

text \<open>
  C7. \<^verbatim>\<open>ToastProvider\<close> has no input and no state: any two renders of it, in any two
  worlds and with any two factories, return the same element and leave their worlds as
  they were.
\<close>

theorem ToastProvider_same_output_every_invocation:
  assumes "render f ToastProviderE w = Inr (e, w')"
      and "render g ToastProviderE v = Inr (e', v')"
  shows "e = e' \<and> w' = w \<and> v' = v"
  using assms by (auto simp: render_ToastProviderE simp del: render.simps(8))

theorem ToastProvider_same_output_every_invocation_witness:
  "render (makeStore (0 :: int)) ToastProviderE [] = (Inr (ToastProvider :: (string, nat) element, []) :: unit + _)
   \<and> render (\<lambda>v :: bool. Inl ''no store'' :: string + nat \<times> bool) ToastProviderE True
        = Inr (ToastProvider :: (string, nat) element, True)
   \<and> (ToastProvider :: (string, nat) element) = ToastProvider"
proof -
  have h1: "render (makeStore (0 :: int)) ToastProviderE [] =
              (Inr (ToastProvider :: (string, nat) element, []) :: unit + _)"
    by (simp add: ToastProvider_def)
  have h2: "render (\<lambda>v :: bool. Inl ''no store'' :: string + nat \<times> bool) ToastProviderE True
              = Inr (ToastProvider :: (string, nat) element, True)"
    by (simp add: ToastProvider_def)
  from ToastProvider_same_output_every_invocation [OF h1 h2] h1 h2 show ?thesis by simp
qed




text \<open>
  C9. The child subtree is passed through as it is: \<^verbatim>\<open>MainProvider\<close> gives it as the only
  child to the \<^verbatim>\<open>ReduxProvider\<close> element, \<^verbatim>\<open>ReduxProvider\<close> gives it as the only child to
  the provider, the only child of the provider in the rendered output is the rendered child,
  and the opaque nodes of the output are those of the child, in the same order.
\<close>

theorem child_passed_through_unchanged:
  assumes "render factory (MainProviderE c) w = Inr (out, w')"
  shows "children_of (hd (children_of (MainProvider c))) = [c]
         \<and> (\<exists>s w1 c'. ReduxProvider factory c w = Inr (Provider s c, w1)
                \<and> render factory c w1 = Inr (c', w')
                \<and> children_of (hd (children_of out)) = [c'])
         \<and> slots out = slots c"
proof -
  have "children_of (hd (children_of (MainProvider c))) = [c]"
    by (simp add: MainProvider_def)
  moreover from assms have "\<exists>s w1 c'. ReduxProvider factory c w = Inr (Provider s c, w1)
                \<and> render factory c w1 = Inr (c', w')
                \<and> children_of (hd (children_of out)) = [c']"
    by (auto simp: render_MainProviderE ReduxProvider_def simp del: render.simps(6)
             split: sum.splits prod.splits)
  moreover from render_slots(1) [OF assms] have "slots out = slots c" by simp
  ultimately show ?thesis by blast
qed

theorem child_passed_through_unchanged_witness:
  "render (makeStore (0 :: int)) (MainProviderE (Slot ''app'')) [] =
       (Inr (Fragment [Provider 0 (Slot ''app''), ToastProvider], [0]) :: unit + _)
   \<and> children_of (hd (children_of (MainProvider (Slot ''app'' :: (string, nat) element)))) = [Slot ''app'']
   \<and> children_of (hd (children_of (Fragment [Provider (0 :: nat) (Slot ''app''), ToastProvider]))) = [Slot ''app'']
   \<and> slots (Fragment [Provider (0 :: nat) (Slot ''app''), ToastProvider]) = [''app'']"
proof -
  have h: "render (makeStore (0 :: int)) (MainProviderE (Slot ''app'')) [] =
       (Inr (Fragment [Provider 0 (Slot ''app''), ToastProvider], [0]) :: unit + _)"
    by (simp add: render_MainProviderE makeStore_def del: render.simps(6))
  from child_passed_through_unchanged [OF h] h show ?thesis
    by (simp add: ToastProvider_def)
qed

text \<open>
  C10. In the fragment of \<^verbatim>\<open>MainProvider\<close>, before and after rendering, the provider with
  the child subtree is the first sibling and the notification surface the second one.
\<close>

theorem toast_after_child_in_sibling_order:
  assumes "render factory (MainProviderE c) w = Inr (out, w')"
  shows "children_of (MainProvider c) = [ReduxProviderE c, ToastProviderE]
         \<and> (\<exists>s c'. children_of out = [Provider s c', ToastProvider])"
  using assms
  by (auto simp: render_MainProviderE MainProvider_def simp del: render.simps(6)
           split: sum.splits prod.splits)

theorem toast_after_child_in_sibling_order_witness:
  "render (makeStore (0 :: int)) (MainProviderE (Slot ''app'')) [] =
       (Inr (Fragment [Provider 0 (Slot ''app''), ToastProvider], [0]) :: unit + _)
   \<and> children_of (MainProvider (Slot ''app'' :: (string, nat) element)) = [ReduxProviderE (Slot ''app''), ToastProviderE]
   \<and> children_of (Fragment [Provider (0 :: nat) (Slot ''app''), ToastProvider]) = [Provider 0 (Slot ''app''), ToastProvider]"
proof -
  have h: "render (makeStore (0 :: int)) (MainProviderE (Slot ''app'')) [] =
       (Inr (Fragment [Provider 0 (Slot ''app''), ToastProvider], [0]) :: unit + _)"
    by (simp add: render_MainProviderE makeStore_def del: render.simps(6))
  from toast_after_child_in_sibling_order [OF h] h show ?thesis
    by simp
qed

end
